theory Spec2Isabelle
  imports Complex_Main "HOL-Library.Sublist" "HOL-Library.Multiset"
begin

section \<open>The sticky-notes board: data model\<close>

text \<open>
  The repository holds two copies of \<^verbatim>\<open>ui.js\<close> and one \<^verbatim>\<open>main.js\<close>. The first copy of
  \<^verbatim>\<open>ui.js\<close> calls a note's creation time \<^verbatim>\<open>createdAt\<close> and its image \<^verbatim>\<open>imageData\<close>; the
  second copy and \<^verbatim>\<open>main.js\<close> call them \<^verbatim>\<open>timestamp\<close> and \<^verbatim>\<open>imageDataUrl\<close>. Both copies are
  embedded: a definition without suffix follows the first copy, a definition with the
  suffix \<open>2\<close> follows the second copy. Where the two copies have the same text up to the
  property names there is one definition.

  Pixel coordinates are JavaScript numbers; they are modelled as \<open>real\<close>. Epoch times
  (\<^verbatim>\<open>Date.prototype.getTime\<close>) are whole milliseconds or \<^verbatim>\<open>NaN\<close>; they are modelled as
  \<open>int option\<close> with \<open>None\<close> for \<^verbatim>\<open>NaN\<close>.
\<close>

text \<open>
  What the creation-time property of a note holds, by what \<^verbatim>\<open>new Date(v)\<close> makes of it:
  \<open>Absent\<close> is a property that is not there (\<^verbatim>\<open>undefined\<close>), \<open>Malformed\<close> is a non-empty
  string that \<^verbatim>\<open>Date\<close> cannot parse, \<open>Instant t\<close> is a string that \<^verbatim>\<open>Date\<close> parses to \<open>t\<close>
  milliseconds since the epoch (what \<^verbatim>\<open>toISOString\<close> writes).
\<close>

datatype stamp = Absent | Malformed | Instant int

text \<open>JavaScript truthiness of the property: \<^verbatim>\<open>undefined\<close> is falsy, a non-empty string is truthy.\<close>

fun truthy :: "stamp \<Rightarrow> bool" where
  "truthy Absent = False"
| "truthy Malformed = True"
| "truthy (Instant t) = True"

text \<open>\<^verbatim>\<open>new Date(v).getTime()\<close>: \<^verbatim>\<open>NaN\<close> for \<^verbatim>\<open>undefined\<close> and for a string that does not parse.\<close>

fun getTime :: "stamp \<Rightarrow> int option" where
  "getTime Absent = None"
| "getTime Malformed = None"
| "getTime (Instant t) = Some t"

text \<open>\<^verbatim>\<open>new Date(v || 0).getTime()\<close>: a falsy property is replaced by the number 0, the epoch.\<close>

definition getTime_or_0 :: "stamp \<Rightarrow> int option" where
  "getTime_or_0 v = (if truthy v then getTime v else Some 0)"

record Note =
  note_id :: nat
  content :: string
  note_x :: real
  note_y :: real
  createdAt :: stamp
  imageData :: string

text \<open>
  Modelled from the spec: \<^verbatim>\<open>Note.updatePosition\<close> of \<^verbatim>\<open>notes.js\<close>, which is not among the
  sources. It "replaces position; the caller is responsible for bounds-clamping".
\<close>

definition updatePosition :: "real \<Rightarrow> real \<Rightarrow> Note \<Rightarrow> Note" where
  "updatePosition x y n = n\<lparr>note_x := x, note_y := y\<rparr>"

text \<open>
  The manager (\<^verbatim>\<open>NoteManager\<close> of \<^verbatim>\<open>notes.js\<close>, which is not among the sources) is, by the
  spec, a mapping from id to note that enumerates in insertion order. It is modelled as
  the list of its note objects in insertion order; a reference to a note object is its
  place in that list.
\<close>


text \<open>
  Modelled from the spec: \<^verbatim>\<open>NoteManager.removeNote\<close>, which "removes if present; no-op (not
  an error) if absent".
\<close>

definition removeNote :: "nat \<Rightarrow> Note list \<Rightarrow> Note list" where
  "removeNote i ms = filter (\<lambda>m. note_id m \<noteq> i) ms"

text \<open>
  Modelled from the spec: \<^verbatim>\<open>NoteManager.getAllNotes\<close>, which "returns all notes; order is
  insertion order": a fresh array of references to the note objects.
\<close>

definition getAllNotes :: "Note list \<Rightarrow> nat list" where
  "getAllNotes ms = [0..<length ms]"

text \<open>
  The element of a rendered note, as far as \<^verbatim>\<open>ui.js\<close> reads and writes it: the id of the
  note it was created from, the inline \<^verbatim>\<open>left\<close> and \<^verbatim>\<open>top\<close> (\<open>None\<close>: not set by \<^verbatim>\<open>ui.js\<close>),
  the source of the image preview (\<open>None\<close>: \<^verbatim>\<open>display: none\<close>) and the text of the
  \<^verbatim>\<open>.note-timestamp\<close> child (\<open>None\<close>: no such child).
\<close>

record element =
  el_note :: nat
  el_left :: "real option"
  el_top :: "real option"
  el_image :: "string option"
  el_timestamp :: "string option"

text \<open>
  Modelled from the spec: \<^verbatim>\<open>Note.createElement\<close> of \<^verbatim>\<open>notes.js\<close>, which is not among the
  sources; it produces the note's visual element. Nothing that \<^verbatim>\<open>ui.js\<close> sets is set yet.
\<close>

definition createElement :: "Note \<Rightarrow> element" where
  "createElement n =
     \<lparr>el_note = note_id n, el_left = None, el_top = None, el_image = None, el_timestamp = None\<rparr>"

datatype console_entry = Warn_invalid_timestamp stamp

record ui =
  manager :: "Note list"
  board :: "element list"
  console :: "console_entry list"


section \<open>Rendering the timestamp\<close>

text \<open>
  \<^verbatim>\<open>toLocaleDateString\<close> and \<^verbatim>\<open>toLocaleTimeString\<close> depend on the locale of the browser: the
  formatting of a valid date is a parameter (\<open>ld\<close>, \<open>lt\<close>). Of an invalid date both give
  the string \<^verbatim>\<open>Invalid Date\<close>.
\<close>

definition toLocaleDateString :: "(int \<Rightarrow> string) \<Rightarrow> int option \<Rightarrow> string" where
  "toLocaleDateString ld d = (case d of None \<Rightarrow> ''Invalid Date'' | Some t \<Rightarrow> ld t)"

definition toLocaleTimeString :: "(int \<Rightarrow> string) \<Rightarrow> int option \<Rightarrow> string" where
  "toLocaleTimeString lt d = (case d of None \<Rightarrow> ''Invalid Date'' | Some t \<Rightarrow> lt t)"

definition formatted :: "(int \<Rightarrow> string) \<Rightarrow> (int \<Rightarrow> string) \<Rightarrow> int option \<Rightarrow> string" where
  "formatted ld lt d = toLocaleDateString ld d @ '' '' @ toLocaleTimeString lt d"

text \<open>First copy: an invalid date is reported with \<^verbatim>\<open>console.warn\<close> and nothing is rendered.\<close>

definition renderTimestamp ::
  "(int \<Rightarrow> string) \<Rightarrow> (int \<Rightarrow> string) \<Rightarrow> element \<Rightarrow> stamp \<Rightarrow> console_entry list
     \<Rightarrow> element \<times> console_entry list" where
  "renderTimestamp ld lt noteElement timestamp con =
     (let date = getTime timestamp in
      if date = None then (noteElement, con @ [Warn_invalid_timestamp timestamp])
      else (noteElement\<lparr>el_timestamp := Some (formatted ld lt date)\<rparr>, con))"

text \<open>Second copy: the date is formatted and shown without a check.\<close>

definition renderTimestamp2 ::
  "(int \<Rightarrow> string) \<Rightarrow> (int \<Rightarrow> string) \<Rightarrow> element \<Rightarrow> stamp \<Rightarrow> console_entry list
     \<Rightarrow> element \<times> console_entry list" where
  "renderTimestamp2 ld lt noteElement timestamp con =
     (let date = getTime timestamp in
      (noteElement\<lparr>el_timestamp := Some (formatted ld lt date)\<rparr>, con))"

text \<open>
  What \<^verbatim>\<open>setupNoteEventListeners\<close> does at once: it shows the image if the note has one and
  the timestamp if the note has one. The listeners it registers are the handlers of the
  later sections.
\<close>

definition show_image :: "element \<Rightarrow> Note \<Rightarrow> element" where
  "show_image noteElement n =
     (if imageData n \<noteq> [] then noteElement\<lparr>el_image := Some (imageData n)\<rparr>
      else noteElement\<lparr>el_image := None\<rparr>)"

definition setupNoteEventListeners ::
  "(int \<Rightarrow> string) \<Rightarrow> (int \<Rightarrow> string) \<Rightarrow> element \<Rightarrow> Note \<Rightarrow> console_entry list
     \<Rightarrow> element \<times> console_entry list" where
  "setupNoteEventListeners ld lt noteElement n con =
     (let el = show_image noteElement n in
      if truthy (createdAt n) then renderTimestamp ld lt el (createdAt n) con else (el, con))"

definition setupNoteEventListeners2 ::
  "(int \<Rightarrow> string) \<Rightarrow> (int \<Rightarrow> string) \<Rightarrow> element \<Rightarrow> Note \<Rightarrow> console_entry list
     \<Rightarrow> element \<times> console_entry list" where
  "setupNoteEventListeners2 ld lt noteElement n con =
     (let el = show_image noteElement n in
      if truthy (createdAt n) then renderTimestamp2 ld lt el (createdAt n) con else (el, con))"


section \<open>Sorting the board\<close>

datatype order = Asc | Desc

text \<open>
  JavaScript subtraction of two time values: \<^verbatim>\<open>NaN\<close> if either is \<^verbatim>\<open>NaN\<close>. The difference of
  two time values may be rounded, but its sign is that of the exact difference, and the
  sort reads the sign only.
\<close>

definition js_minus :: "int option \<Rightarrow> int option \<Rightarrow> int option" where
  "js_minus a b = (case a of None \<Rightarrow> None | Some u \<Rightarrow> (case b of None \<Rightarrow> None | Some v \<Rightarrow> Some (u - v)))"

text \<open>The comparator of the first copy and of the second copy.\<close>

definition compare :: "order \<Rightarrow> Note \<Rightarrow> Note \<Rightarrow> int option" where
  "compare ord a b =
     (let dateA = getTime (createdAt a); dateB = getTime (createdAt b)
      in if ord = Asc then js_minus dateA dateB else js_minus dateB dateA)"

definition compare2 :: "order \<Rightarrow> Note \<Rightarrow> Note \<Rightarrow> int option" where
  "compare2 ord a b =
     (let dateA = getTime_or_0 (createdAt a); dateB = getTime_or_0 (createdAt b)
      in if ord = Asc then js_minus dateA dateB else js_minus dateB dateA)"

text \<open>
  \<^verbatim>\<open>Array.prototype.sort\<close> with a comparator. The language standard reads a comparator
  result of \<^verbatim>\<open>NaN\<close> as \<open>+0\<close> (\<open>sortCompare\<close>) and demands a stable sort; for a consistent
  comparator that fixes the result, and it is the result of the stable insertion sort
  \<open>array_sort\<close>. For an inconsistent comparator (one that returns \<^verbatim>\<open>NaN\<close> for some pairs
  and a sign for others) the standard leaves the order to the implementation, and
  \<open>array_sort\<close> is then only one of the permutations an engine may produce. Every
  statement below that speaks about the order is therefore either made under the
  hypothesis that all times are valid, or evaluated at an input on which the comparator
  is consistent; the other statements hold for whatever permutation the sort produces.
\<close>

definition sortCompare :: "('a \<Rightarrow> 'a \<Rightarrow> int option) \<Rightarrow> 'a \<Rightarrow> 'a \<Rightarrow> int" where
  "sortCompare comparefn a b = (case comparefn a b of None \<Rightarrow> 0 | Some v \<Rightarrow> v)"

fun sort_insert :: "('a \<Rightarrow> 'a \<Rightarrow> int option) \<Rightarrow> 'a \<Rightarrow> 'a list \<Rightarrow> 'a list" where
  "sort_insert comparefn a [] = [a]"
| "sort_insert comparefn a (b # bs) =
     (if sortCompare comparefn a b \<le> 0 then a # b # bs else b # sort_insert comparefn a bs)"

fun array_sort :: "('a \<Rightarrow> 'a \<Rightarrow> int option) \<Rightarrow> 'a list \<Rightarrow> 'a list" where
  "array_sort comparefn [] = []"
| "array_sort comparefn (a # as) = sort_insert comparefn a (array_sort comparefn as)"

text \<open>The sorted array of note references, first and second copy.\<close>

definition sorted_notes :: "order \<Rightarrow> Note list \<Rightarrow> nat list" where
  "sorted_notes ord ms = array_sort (\<lambda>a b. compare ord (ms ! a) (ms ! b)) (getAllNotes ms)"

definition sorted_notes2 :: "order \<Rightarrow> Note list \<Rightarrow> nat list" where
  "sorted_notes2 ord ms = array_sort (\<lambda>a b. compare2 ord (ms ! a) (ms ! b)) (getAllNotes ms)"

definition startX :: real where "startX = 20"
definition spacingY :: real where "spacingY = 160"

text \<open>
  The \<^verbatim>\<open>forEach\<close> of the first copy: the note object is moved to the next place of the
  stack, then its element is created, set up, placed and appended, and the timestamp is
  rendered again. \<open>offsetY\<close> is the loop's running variable.
\<close>

fun forEach_sorted ::
  "(int \<Rightarrow> string) \<Rightarrow> (int \<Rightarrow> string) \<Rightarrow> nat list \<Rightarrow> real \<Rightarrow> ui \<Rightarrow> ui" where
  "forEach_sorted ld lt [] offsetY s = s"
| "forEach_sorted ld lt (r # rs) offsetY s =
     (let ms = (manager s)[r := updatePosition startX offsetY (manager s ! r)];
          n = ms ! r;
          set_up = setupNoteEventListeners ld lt (createElement n) n (console s);
          noteElement = (fst set_up)\<lparr>el_left := Some (note_x n), el_top := Some (note_y n)\<rparr>;
          rendered = renderTimestamp ld lt noteElement (createdAt n) (snd set_up)
      in forEach_sorted ld lt rs (offsetY + spacingY)
           (s\<lparr>manager := ms, board := board s @ [fst rendered], console := snd rendered\<rparr>))"

definition sortNotesByTimestamp ::
  "(int \<Rightarrow> string) \<Rightarrow> (int \<Rightarrow> string) \<Rightarrow> order \<Rightarrow> ui \<Rightarrow> ui" where
  "sortNotesByTimestamp ld lt ord s =
     forEach_sorted ld lt (sorted_notes ord (manager s)) 20 (s\<lparr>board := []\<rparr>)"

text \<open>The \<^verbatim>\<open>forEach\<close> of the second copy: the element is created, set up and appended.\<close>

fun forEach_sorted2 ::
  "(int \<Rightarrow> string) \<Rightarrow> (int \<Rightarrow> string) \<Rightarrow> nat list \<Rightarrow> ui \<Rightarrow> ui" where
  "forEach_sorted2 ld lt [] s = s"
| "forEach_sorted2 ld lt (r # rs) s =
     (let n = manager s ! r;
          set_up = setupNoteEventListeners2 ld lt (createElement n) n (console s)
      in forEach_sorted2 ld lt rs (s\<lparr>board := board s @ [fst set_up], console := snd set_up\<rparr>))"

definition sortNotesByTimestamp2 ::
  "(int \<Rightarrow> string) \<Rightarrow> (int \<Rightarrow> string) \<Rightarrow> order \<Rightarrow> ui \<Rightarrow> ui" where
  "sortNotesByTimestamp2 ld lt ord s =
     forEach_sorted2 ld lt (sorted_notes2 ord (manager s)) (s\<lparr>board := []\<rparr>)"

text \<open>
  The notes of the manager after the loop of the first copy, taken on their own: the loop
  changes the manager only through \<^verbatim>\<open>note.updatePosition(startX, offsetY)\<close>.
\<close>

fun place :: "nat list \<Rightarrow> real \<Rightarrow> Note list \<Rightarrow> Note list" where
  "place [] offsetY ms = ms"
| "place (r # rs) offsetY ms =
     place rs (offsetY + spacingY) (ms[r := updatePosition startX offsetY (ms ! r)])"

text \<open>A note whose missing creation time is replaced by the epoch.\<close>

definition missing_as_0 :: "Note \<Rightarrow> Note" where
  "missing_as_0 n = (if createdAt n = Absent then n\<lparr>createdAt := Instant 0\<rparr> else n)"

text \<open>The epoch time of a referenced note (0 stands in for an invalid date).\<close>

definition time_of :: "Note list \<Rightarrow> nat \<Rightarrow> int" where
  "time_of ms r = (case getTime (createdAt (ms ! r)) of Some t \<Rightarrow> t | None \<Rightarrow> 0)"


section \<open>Dragging a note\<close>

text \<open>
  The variables that the listeners of one note close over. \<^verbatim>\<open>dragOffsetX\<close> and
  \<^verbatim>\<open>dragOffsetY\<close> are declared without a value and are read only while \<^verbatim>\<open>isDragging\<close>
  holds, which only the mouse-down listener sets, together with them; \<open>drag_idle\<close> gives
  them the value 0 until then. \<open>note_active\<close> is the class \<^verbatim>\<open>note-active\<close> of the element.
\<close>

record drag =
  isDragging :: bool
  dragOffsetX :: real
  dragOffsetY :: real
  note_active :: bool

definition drag_idle :: drag where
  "drag_idle = \<lparr>isDragging = False, dragOffsetX = 0, dragOffsetY = 0, note_active = False\<rparr>"

text \<open>Where a mouse-down landed: on one of the six sub-elements that do not drag, or elsewhere in the note.\<close>

datatype target =
  DeleteButton | QuoteButton | ContentElement | ImageUploadBtn | ImageInput | ImagePreview
  | NoteBody

record mouseEvent =
  target :: target
  clientX :: real
  clientY :: real

record DOMRect =
  rect_left :: real
  rect_top :: real
  rect_width :: real
  rect_height :: real

definition mousedown :: "mouseEvent \<Rightarrow> DOMRect \<Rightarrow> drag \<Rightarrow> drag" where
  "mousedown event noteRect d =
     (if target event \<in> set [DeleteButton, QuoteButton, ContentElement, ImageUploadBtn,
                              ImageInput, ImagePreview]
      then d
      else d\<lparr>isDragging := True,
             dragOffsetX := clientX event - rect_left noteRect,
             dragOffsetY := clientY event - rect_top noteRect,
             note_active := True\<rparr>)"

text \<open>
  The arguments that the mouse-move listener passes to \<^verbatim>\<open>updatePosition\<close> while dragging;
  \<open>offsetWidth\<close> and \<open>offsetHeight\<close> are those of the note element.
\<close>

definition newX :: "mouseEvent \<Rightarrow> DOMRect \<Rightarrow> real \<Rightarrow> drag \<Rightarrow> real" where
  "newX event boardRect offsetWidth d =
     max 0 (min (clientX event - rect_left boardRect - dragOffsetX d)
                (rect_width boardRect - offsetWidth))"

definition newY :: "mouseEvent \<Rightarrow> DOMRect \<Rightarrow> real \<Rightarrow> drag \<Rightarrow> real" where
  "newY event boardRect offsetHeight d =
     max 0 (min (clientY event - rect_top boardRect - dragOffsetY d)
                (rect_height boardRect - offsetHeight))"

definition mousemove :: "mouseEvent \<Rightarrow> DOMRect \<Rightarrow> real \<Rightarrow> real \<Rightarrow> drag \<Rightarrow> Note \<Rightarrow> Note" where
  "mousemove event boardRect offsetWidth offsetHeight d n =
     (if \<not> isDragging d then n
      else updatePosition (newX event boardRect offsetWidth d)
             (newY event boardRect offsetHeight d) n)"

definition mouseup :: "drag \<Rightarrow> drag" where
  "mouseup d = (if isDragging d then d\<lparr>isDragging := False, note_active := False\<rparr> else d)"

text \<open>The mouse events that reach the listeners of one note, and their dispatch in order.\<close>

datatype drag_event =
  MouseDown mouseEvent DOMRect
  | MouseMove mouseEvent DOMRect real real
  | MouseUp

fun dispatch :: "drag_event \<Rightarrow> drag \<times> Note \<Rightarrow> drag \<times> Note" where
  "dispatch (MouseDown event noteRect) (d, n) = (mousedown event noteRect d, n)"
| "dispatch (MouseMove event boardRect w h) (d, n) = (d, mousemove event boardRect w h d n)"
| "dispatch MouseUp (d, n) = (mouseup d, n)"

fun dispatch_all :: "drag_event list \<Rightarrow> drag \<times> Note \<Rightarrow> drag \<times> Note" where
  "dispatch_all [] s = s"
| "dispatch_all (e # es) s = dispatch_all es (dispatch e s)"

text \<open>A mouse-down that starts a drag: one that did not land on the six sub-elements.\<close>

fun starts_drag :: "drag_event \<Rightarrow> bool" where
  "starts_drag (MouseDown event noteRect) =
     (target event \<notin> set [DeleteButton, QuoteButton, ContentElement, ImageUploadBtn,
                            ImageInput, ImagePreview])"
| "starts_drag _ = False"


section \<open>Deleting a note\<close>

text \<open>
  What \<^verbatim>\<open>deleteNote(noteElement, note, noteManager)\<close> and its listener read and write: the
  notes of the manager, whether the note element is in the document, its class list, the
  number of \<^verbatim>\<open>animationend\<close> listeners that \<^verbatim>\<open>deleteNote\<close> has registered on it, and, to speak
  about the order of effects, the calls made so far.
\<close>

datatype call = ClassListAdd | AddEventListener | ElementRemove | ManagerRemoveNote nat

record rendering =
  r_manager :: "Note list"
  r_attached :: bool
  r_classes :: "string list"
  r_animationend :: nat
  r_calls :: "call list"

definition deleteNote :: "Note \<Rightarrow> rendering \<Rightarrow> rendering" where
  "deleteNote n v =
     v\<lparr>r_classes := (if ''note-fade-out'' \<in> set (r_classes v) then r_classes v
                      else r_classes v @ [''note-fade-out'']),
       r_animationend := Suc (r_animationend v),
       r_calls := r_calls v @ [ClassListAdd, AddEventListener]\<rparr>"

text \<open>The listener: \<^verbatim>\<open>noteElement.remove()\<close>, then \<^verbatim>\<open>noteManager.removeNote(note.id)\<close>.\<close>

definition animationend_listener :: "Note \<Rightarrow> rendering \<Rightarrow> rendering" where
  "animationend_listener n v =
     (let v1 = v\<lparr>r_attached := False, r_calls := r_calls v @ [ElementRemove]\<rparr>
      in v1\<lparr>r_manager := removeNote (note_id n) (r_manager v1),
             r_calls := r_calls v1 @ [ManagerRemoveNote (note_id n)]\<rparr>)"

text \<open>The event \<^verbatim>\<open>animationend\<close> on the note element runs every listener registered on it.\<close>

definition animationend :: "Note \<Rightarrow> rendering \<Rightarrow> rendering" where
  "animationend n v = (animationend_listener n ^^ r_animationend v) v"

datatype delete_event = DeleteClick | AnimationEnd

fun deliver :: "Note \<Rightarrow> delete_event \<Rightarrow> rendering \<Rightarrow> rendering" where
  "deliver n DeleteClick v = deleteNote n v"
| "deliver n AnimationEnd v = animationend n v"

fun deliver_all :: "Note \<Rightarrow> delete_event list \<Rightarrow> rendering \<Rightarrow> rendering" where
  "deliver_all n [] v = v"
| "deliver_all n (e # es) v = deliver_all n es (deliver n e v)"


section \<open>Attaching an image\<close>

text \<open>
  A selected file: its MIME type and the data URL that \<^verbatim>\<open>readAsDataURL\<close> yields for it.
  \<open>None\<close> stands for \<^verbatim>\<open>imageInput.files[0]\<close> being \<^verbatim>\<open>undefined\<close>.
\<close>

record File =
  file_type :: string
  file_result :: string

text \<open>The file that the change listener hands to the reader; \<open>None\<close> when it does nothing.\<close>

definition imageInput_change :: "File option \<Rightarrow> File option" where
  "imageInput_change files0 =
     (case files0 of None \<Rightarrow> None
      | Some f \<Rightarrow> if prefix ''image/'' (file_type f) then Some f else None)"

definition reader_onload ::
  "string \<Rightarrow> element \<times> Note \<times> console_entry list \<Rightarrow> element \<times> Note \<times> console_entry list" where
  "reader_onload dataUrl s =
     (case s of (imagePreview, n, con) \<Rightarrow>
        (imagePreview\<lparr>el_image := Some dataUrl\<rparr>, n\<lparr>imageData := dataUrl\<rparr>, con))"

text \<open>The change listener followed by the load event of the reader it started, if any.\<close>

definition image_selected ::
  "File option \<Rightarrow> element \<times> Note \<times> console_entry list \<Rightarrow> element \<times> Note \<times> console_entry list" where
  "image_selected files0 s =
     (case imageInput_change files0 of None \<Rightarrow> s
      | Some f \<Rightarrow> reader_onload (file_result f) s)"


section \<open>Bootstrap\<close>

text \<open>A persisted note record, as \<^verbatim>\<open>main.js\<close> reads it: it calls the creation time \<^verbatim>\<open>timestamp\<close>.\<close>

record noteData =
  nd_id :: nat
  nd_content :: string
  nd_x :: real
  nd_y :: real
  timestamp :: stamp
  nd_imageData :: string







section \<open>Concrete inputs\<close>

text \<open>
  The inputs at which the statements below are evaluated: two notes created at 1000 ms and
  2000 ms, a note without creation time, a note whose creation time does not parse, and
  the events, rectangles and files of the examples.
\<close>

abbreviation note_1000 :: Note where
  "note_1000 \<equiv> \<lparr>note_id = 1, content = [], note_x = 300, note_y = 40, createdAt = Instant 1000, imageData = []\<rparr>"

abbreviation note_2000 :: Note where
  "note_2000 \<equiv> \<lparr>note_id = 2, content = [], note_x = 50, note_y = 90, createdAt = Instant 2000, imageData = []\<rparr>"

abbreviation note_missing :: Note where
  "note_missing \<equiv> \<lparr>note_id = 2, content = [], note_x = 50, note_y = 90, createdAt = Absent, imageData = []\<rparr>"

abbreviation note_malformed :: Note where
  "note_malformed \<equiv> \<lparr>note_id = 1, content = [], note_x = 300, note_y = 40, createdAt = Malformed, imageData = []\<rparr>"

abbreviation two_notes_ui :: ui where
  "two_notes_ui \<equiv> \<lparr>manager = [note_2000, note_1000], board = [], console = []\<rparr>"

abbreviation one_missing_ui :: ui where
  "one_missing_ui \<equiv> \<lparr>manager = [note_1000, note_missing], board = [], console = []\<rparr>"

abbreviation attached_rendering :: rendering where
  "attached_rendering \<equiv> \<lparr>r_manager = [note_1000], r_attached = True, r_classes = [], r_animationend = 0, r_calls = []\<rparr>"



abbreviation event_inside :: mouseEvent where
  "event_inside \<equiv> \<lparr>target = NoteBody, clientX = 50, clientY = 60\<rparr>"

abbreviation event_far_right :: mouseEvent where
  "event_far_right \<equiv> \<lparr>target = NoteBody, clientX = 2000, clientY = -50\<rparr>"

abbreviation event_50_50 :: mouseEvent where
  "event_50_50 \<equiv> \<lparr>target = NoteBody, clientX = 50, clientY = 50\<rparr>"

abbreviation large_board :: DOMRect where
  "large_board \<equiv> \<lparr>rect_left = 0, rect_top = 0, rect_width = 1000, rect_height = 800\<rparr>"

abbreviation small_board :: DOMRect where
  "small_board \<equiv> \<lparr>rect_left = 0, rect_top = 0, rect_width = 100, rect_height = 100\<rparr>"

abbreviation note_rect :: DOMRect where
  "note_rect \<equiv> \<lparr>rect_left = 40, rect_top = 40, rect_width = 200, rect_height = 150\<rparr>"

abbreviation dragging :: drag where
  "dragging \<equiv> \<lparr>isDragging = True, dragOffsetX = 5, dragOffsetY = 5, note_active = True\<rparr>"

abbreviation text_file :: File where
  "text_file \<equiv> \<lparr>file_type = ''text/plain'', file_result = ''data:text/plain;base64,aGk=''\<rparr>"

abbreviation png_file :: File where
  "png_file \<equiv> \<lparr>file_type = ''image/png'', file_result = ''data:image/png;base64,iVBORw==''\<rparr>"

abbreviation fresh_element :: element where
  "fresh_element \<equiv> \<lparr>el_note = 1, el_left = None, el_top = None, el_image = None, el_timestamp = None\<rparr>"


section \<open>The sort: permutation, order and the loop\<close>

lemma mset_sort_insert: "mset (sort_insert f a bs) = add_mset a (mset bs)"
  by (induction bs) auto

lemma mset_array_sort: "mset (array_sort f xs) = mset xs"
  by (induction xs) (auto simp: mset_sort_insert)

lemma set_array_sort: "set (array_sort f xs) = set xs"
  by (metis mset_array_sort set_mset_mset)

lemma distinct_array_sort: "distinct (array_sort f xs) = distinct xs"
  by (metis mset_array_sort distinct_count_atmost_1 set_mset_mset)

lemma length_array_sort: "length (array_sort f xs) = length xs"
  by (metis mset_array_sort size_mset)

lemma sorted_notes_refs:
  "set (sorted_notes ord ms) = {..<length ms}" "distinct (sorted_notes ord ms)"
  "length (sorted_notes ord ms) = length ms"
  by (auto simp: sorted_notes_def getAllNotes_def set_array_sort distinct_array_sort length_array_sort)

text \<open>The comparator matters only on the elements of the array.\<close>

lemma sort_insert_cong:
  "(\<And>b. b \<in> set ys \<Longrightarrow> f a b = g a b) \<Longrightarrow> sort_insert f a ys = sort_insert g a ys"
  by (induction ys) (simp_all add: sortCompare_def)

lemma array_sort_cong:
  "(\<And>a b. a \<in> set xs \<Longrightarrow> b \<in> set xs \<Longrightarrow> f a b = g a b) \<Longrightarrow> array_sort f xs = array_sort g xs"
proof (induction xs)
  case Nil
  then show ?case by simp
next
  case (Cons x xs)
  have "array_sort f xs = array_sort g xs" using Cons by simp
  moreover have "sort_insert f x (array_sort g xs) = sort_insert g x (array_sort g xs)"
    using Cons.prems by (intro sort_insert_cong) (simp add: set_array_sort)
  ultimately show ?case by simp
qed

text \<open>Where the comparator is the order of a key, the sort is the stable sort by that key.\<close>

lemma sort_insert_insort_key:
  "(\<And>b. b \<in> set ys \<Longrightarrow> (sortCompare f a b \<le> 0) = (key a \<le> key b)) \<Longrightarrow>
   sort_insert f a ys = insort_key key a ys"
  by (induction ys) simp_all

lemma array_sort_sort_key:
  "(\<And>a b. a \<in> set xs \<Longrightarrow> b \<in> set xs \<Longrightarrow> (sortCompare f a b \<le> 0) = (key a \<le> key b)) \<Longrightarrow>
   array_sort f xs = sort_key key xs"
proof (induction xs)
  case Nil
  then show ?case by simp
next
  case (Cons x xs)
  have "array_sort f xs = sort_key key xs" using Cons by simp
  moreover have "sort_insert f x (sort_key key xs) = insort_key key x (sort_key key xs)"
    using Cons.prems by (intro sort_insert_insort_key) simp
  ultimately show ?case by simp
qed

lemma sorted_rev_neg:
  fixes key :: "'a \<Rightarrow> int"
  shows "sorted (map (\<lambda>x. - key x) zs) \<Longrightarrow> sorted (map key (rev zs))"
  by (simp add: sorted_map sorted_wrt_rev)

lemma sort_key_rev_neg:
  fixes key :: "'a \<Rightarrow> int"
  assumes "distinct (map key xs)"
  shows "sort_key key xs = rev (sort_key (\<lambda>x. - key x) xs)"
proof (rule map_sorted_distinct_set_unique[where f = key])
  have d: "distinct xs" and i: "inj_on key (set xs)"
    using assms by (simp_all add: distinct_map)
  show "inj_on key (set (sort_key key xs) \<union> set (rev (sort_key (\<lambda>x. - key x) xs)))"
    using i by simp
  show "sorted (map key (sort_key key xs))" by simp
  show "distinct (map key (sort_key key xs))" using d i by (simp add: distinct_map)
  show "sorted (map key (rev (sort_key (\<lambda>x. - key x) xs)))"
    by (intro sorted_rev_neg) simp
  show "distinct (map key (rev (sort_key (\<lambda>x. - key x) xs)))"
    using d i by (simp add: distinct_map)
  show "set (sort_key key xs) = set (rev (sort_key (\<lambda>x. - key x) xs))" by simp
qed

lemma getTime_or_0_valid: "getTime v \<noteq> None \<Longrightarrow> getTime_or_0 v = getTime v"
  by (cases v) (simp_all add: getTime_or_0_def)

lemma compare_valid:
  assumes "getTime (createdAt a) \<noteq> None" "getTime (createdAt b) \<noteq> None"
  shows "compare Asc a b = Some (the (getTime (createdAt a)) - the (getTime (createdAt b)))"
    and "compare Desc a b = Some (the (getTime (createdAt b)) - the (getTime (createdAt a)))"
    and "compare2 ord a b = compare ord a b"
  using assms by (auto simp: compare_def compare2_def js_minus_def Let_def getTime_or_0_valid)

lemma time_of_valid:
  "getTime (createdAt (ms ! r)) \<noteq> None \<Longrightarrow> time_of ms r = the (getTime (createdAt (ms ! r)))"
  by (auto simp: time_of_def)

lemma sorted_notes_valid:
  assumes valid: "\<forall>n\<in>set ms. getTime (createdAt n) \<noteq> None"
  shows "sorted_notes Asc ms = sort_key (time_of ms) [0..<length ms]"
    and "sorted_notes Desc ms = sort_key (\<lambda>r. - time_of ms r) [0..<length ms]"
    and "sorted_notes2 ord ms = sorted_notes ord ms"
proof -
  have v: "getTime (createdAt (ms ! r)) \<noteq> None" if "r < length ms" for r
    using valid that by simp
  show "sorted_notes Asc ms = sort_key (time_of ms) [0..<length ms]"
    unfolding sorted_notes_def getAllNotes_def
    by (rule array_sort_sort_key) (simp add: sortCompare_def compare_valid v time_of_valid)
  show "sorted_notes Desc ms = sort_key (\<lambda>r. - time_of ms r) [0..<length ms]"
    unfolding sorted_notes_def getAllNotes_def
    by (rule array_sort_sort_key) (simp add: sortCompare_def compare_valid v time_of_valid)
  show "sorted_notes2 ord ms = sorted_notes ord ms"
    unfolding sorted_notes_def sorted_notes2_def getAllNotes_def
    by (rule array_sort_cong) (simp add: compare_valid v)
qed

lemma distinct_time_of:
  assumes valid: "\<forall>n\<in>set ms. getTime (createdAt n) \<noteq> None"
    and dist: "distinct (map createdAt ms)"
  shows "distinct (map (time_of ms) [0..<length ms])"
proof -
  have "inj_on (time_of ms) {..<length ms}"
  proof (rule inj_onI)
    fix i j
    assume ij: "i \<in> {..<length ms}" "j \<in> {..<length ms}"
      and eq: "time_of ms i = time_of ms j"
    have "getTime (createdAt (ms ! i)) \<noteq> None" "getTime (createdAt (ms ! j)) \<noteq> None"
      using valid ij by simp_all
    then obtain u v where u: "createdAt (ms ! i) = Instant u" and v: "createdAt (ms ! j) = Instant v"
      by (cases "createdAt (ms ! i)"; cases "createdAt (ms ! j)") simp_all
    have "createdAt (ms ! i) = createdAt (ms ! j)"
      using eq u v by (simp add: time_of_def)
    then have "map createdAt ms ! i = map createdAt ms ! j" using ij by simp
    moreover have "i < length (map createdAt ms)" "j < length (map createdAt ms)"
      using ij by simp_all
    ultimately show "i = j" using dist nth_eq_iff_index_eq by blast
  qed
  then show ?thesis by (simp add: distinct_map atLeast0LessThan)
qed

lemma sorted_notes_asc_rev_desc:
  assumes valid: "\<forall>n\<in>set ms. getTime (createdAt n) \<noteq> None"
    and dist: "distinct (map createdAt ms)"
  shows "sorted_notes Asc ms = rev (sorted_notes Desc ms)"
  using sort_key_rev_neg[OF distinct_time_of[OF valid dist]]
  by (simp add: sorted_notes_valid[OF valid])

text \<open>The second copy orders the notes as the first copy orders them with every missing
  creation time replaced by the epoch.\<close>

lemma getTime_missing_as_0: "getTime (createdAt (missing_as_0 n)) = getTime_or_0 (createdAt n)"
  by (cases "createdAt n") (simp_all add: missing_as_0_def getTime_or_0_def)

lemma compare2_missing_as_0: "compare2 ord a b = compare ord (missing_as_0 a) (missing_as_0 b)"
  by (simp add: compare_def compare2_def getTime_missing_as_0)

lemma sorted_notes2_missing_as_0: "sorted_notes2 ord ms = sorted_notes ord (map missing_as_0 ms)"
  unfolding sorted_notes_def sorted_notes2_def getAllNotes_def
  by (simp, rule array_sort_cong) (simp add: compare2_missing_as_0)

text \<open>The loops: what they do to the manager and to the board.\<close>

lemma manager_forEach_sorted:
  "manager (forEach_sorted ld lt rs offsetY s) = place rs offsetY (manager s)"
  by (induction rs arbitrary: offsetY s) (simp_all add: Let_def)

lemma manager_forEach_sorted2: "manager (forEach_sorted2 ld lt rs s) = manager s"
  by (induction rs arbitrary: s) (simp_all add: Let_def)

lemma length_place: "length (place rs offsetY ms) = length ms"
  by (induction rs arbitrary: offsetY ms) simp_all

lemma place_other: "r \<notin> set rs \<Longrightarrow> place rs offsetY ms ! r = ms ! r"
  by (induction rs arbitrary: offsetY ms) auto

lemma place_nth:
  "distinct rs \<Longrightarrow> \<forall>r\<in>set rs. r < length ms \<Longrightarrow> k < length rs \<Longrightarrow>
   place rs offsetY ms ! (rs ! k) = updatePosition startX (offsetY + real k * spacingY) (ms ! (rs ! k))"
proof (induction rs arbitrary: offsetY ms k)
  case Nil
  then show ?case by simp
next
  case (Cons r rs)
  show ?case
  proof (cases k)
    case 0
    then show ?thesis using Cons.prems by (simp add: place_other)
  next
    case (Suc j)
    have "rs ! j \<noteq> r" using Cons.prems Suc by auto
    then show ?thesis
      using Cons.prems Suc
        Cons.IH[of "ms[r := updatePosition startX offsetY (ms ! r)]" j "offsetY + spacingY"]
      by (simp add: algebra_simps)
  qed
qed

lemma map_update_same:
  "(\<And>n. f (g n) = f n) \<Longrightarrow> map f (ms[r := g (ms ! r)]) = map f ms"
  by (cases "r < length ms") (simp_all add: map_update list_update_same_conv list_update_beyond)

lemma place_frame:
  "(\<And>x y n. f (updatePosition x y n) = f n) \<Longrightarrow> map f (place rs offsetY ms) = map f ms"
  by (induction rs arbitrary: offsetY ms) (simp_all add: map_update_same)

lemma place_fields:
  "map note_id (place rs offsetY ms) = map note_id ms"
  "map content (place rs offsetY ms) = map content ms"
  "map createdAt (place rs offsetY ms) = map createdAt ms"
  "map imageData (place rs offsetY ms) = map imageData ms"
  by (simp_all add: place_frame updatePosition_def)

lemma el_note_renderTimestamp [simp]:
  "el_note (fst (renderTimestamp ld lt el t con)) = el_note el"
  by (simp add: renderTimestamp_def Let_def)

lemma el_note_renderTimestamp2 [simp]:
  "el_note (fst (renderTimestamp2 ld lt el t con)) = el_note el"
  by (simp add: renderTimestamp2_def Let_def)

lemma el_note_setup [simp]:
  "el_note (fst (setupNoteEventListeners ld lt el n con)) = el_note el"
  by (simp add: setupNoteEventListeners_def show_image_def Let_def)

lemma el_note_setup2 [simp]:
  "el_note (fst (setupNoteEventListeners2 ld lt el n con)) = el_note el"
  by (simp add: setupNoteEventListeners2_def show_image_def Let_def)

lemma note_id_update:
  "r' < length ms \<Longrightarrow> note_id (ms[r := updatePosition x y (ms ! r)] ! r') = note_id (ms ! r')"
  by (cases "r' = r") (simp_all add: updatePosition_def)

lemma board_forEach_sorted:
  "\<forall>r\<in>set rs. r < length (manager s) \<Longrightarrow>
   map el_note (board (forEach_sorted ld lt rs offsetY s)) =
   map el_note (board s) @ map (\<lambda>r. note_id (manager s ! r)) rs"
proof (induction rs arbitrary: offsetY s)
  case Nil
  then show ?case by simp
next
  case (Cons r rs)
  let ?ms = "(manager s)[r := updatePosition startX offsetY (manager s ! r)]"
  have ids: "map (\<lambda>r'. note_id (?ms ! r')) rs = map (\<lambda>r'. note_id (manager s ! r')) rs"
    using Cons.prems by (intro map_cong refl note_id_update) simp
  have r: "note_id (?ms ! r) = note_id (manager s ! r)"
    using Cons.prems by (intro note_id_update) simp
  show ?case
    using Cons.prems ids r by (simp add: Cons.IH Let_def createElement_def)
qed

lemma board_forEach_sorted2:
  "map el_note (board (forEach_sorted2 ld lt rs s)) =
   map el_note (board s) @ map (\<lambda>r. note_id (manager s ! r)) rs"
proof (induction rs arbitrary: s)
  case Nil
  then show ?case by simp
next
  case (Cons r rs)
  show ?case
    by (simp add: Cons.IH Let_def createElement_def manager_forEach_sorted2)
qed

lemma board_sort:
  "map el_note (board (sortNotesByTimestamp ld lt ord s)) =
   map (\<lambda>r. note_id (manager s ! r)) (sorted_notes ord (manager s))"
  using board_forEach_sorted[of "sorted_notes ord (manager s)" "s\<lparr>board := []\<rparr>" ld lt 20]
  by (simp add: sortNotesByTimestamp_def sorted_notes_refs)

lemma board_sort2:
  "map el_note (board (sortNotesByTimestamp2 ld lt ord s)) =
   map (\<lambda>r. note_id (manager s ! r)) (sorted_notes2 ord (manager s))"
  using board_forEach_sorted2[of ld lt "sorted_notes2 ord (manager s)" "s\<lparr>board := []\<rparr>"]
  by (simp add: sortNotesByTimestamp2_def)


section \<open>Claims about the sort\<close>

text \<open>
  Claim C1: a set of notes in which exactly one note has no creation time is sorted as
  if that note's creation time were 0: the note comes first in ascending order.

  The first copy of \<^verbatim>\<open>sortNotesByTimestamp\<close> does not do this. For the note without
  \<^verbatim>\<open>createdAt\<close> its comparator computes \<^verbatim>\<open>NaN\<close>, every comparison with that note counts as
  a tie, and the stable sort leaves the note where it was: with a note created at 1000 ms
  inserted before it, it stays last in ascending order. The second copy, whose comparator
  reads \<^verbatim>\<open>timestamp || 0\<close>, puts it first (lemma \<open>sorted_notes2_missing_as_0\<close> above is the
  general statement for the second copy).
\<close>

theorem sort_missing_createdAt_stays_last:
  "map el_note (board (sortNotesByTimestamp (\<lambda>t. []) (\<lambda>t. []) Asc one_missing_ui)) = [1, 2]
   \<and> map el_note (board (sortNotesByTimestamp2 (\<lambda>t. []) (\<lambda>t. []) Asc one_missing_ui)) = [2, 1]"
  by (simp add: board_sort board_sort2 sorted_notes_def sorted_notes2_def getAllNotes_def
      upt_rec sortCompare_def compare_def compare2_def js_minus_def getTime_or_0_def)

text \<open>
  The loop of the first copy puts the notes into a fixed vertical stack, whatever the
  order \<open>rs\<close> in which the sort hands them over: the \<open>k\<close>-th note of the array gets
  \<open>x = 20\<close> and \<open>y = offsetY + k * 160\<close>, and its element is the \<open>k\<close>-th of the board.
\<close>

lemma forEach_sorted_stacks:
  assumes "distinct rs" "\<forall>r\<in>set rs. r < length (manager s)" "k < length rs"
  shows "note_x (manager (forEach_sorted ld lt rs offsetY s) ! (rs ! k)) = 20
   \<and> note_y (manager (forEach_sorted ld lt rs offsetY s) ! (rs ! k)) = offsetY + real k * 160
   \<and> map el_note (board (forEach_sorted ld lt rs offsetY (s\<lparr>board := []\<rparr>))) ! k
       = note_id (manager (forEach_sorted ld lt rs offsetY s) ! (rs ! k))"
proof -
  have r: "rs ! k < length (manager s)" using assms by simp
  have p: "place rs offsetY (manager s) ! (rs ! k)
         = updatePosition startX (offsetY + real k * spacingY) (manager s ! (rs ! k))"
    using assms by (intro place_nth) simp_all
  have "map note_id (place rs offsetY (manager s)) ! (rs ! k) = map note_id (manager s) ! (rs ! k)"
    by (simp add: place_fields)
  then have id: "note_id (place rs offsetY (manager s) ! (rs ! k)) = note_id (manager s ! (rs ! k))"
    using r by (simp add: length_place)
  have b: "map el_note (board (forEach_sorted ld lt rs offsetY (s\<lparr>board := []\<rparr>))) ! k
         = note_id (manager s ! (rs ! k))"
    using assms board_forEach_sorted[of rs "s\<lparr>board := []\<rparr>" ld lt offsetY] by simp
  show ?thesis
    using b id by (simp add: manager_forEach_sorted p updatePosition_def startX_def spacingY_def)
qed

text \<open>
  Claim C4: after every sort, in either order, every note of the collection is put into
  a fixed vertical stack: every \<open>x\<close> is one constant and the \<open>i\<close>-th note in sorted order
  has \<open>y = base + i * step\<close>.

  The second copy of \<^verbatim>\<open>sortNotesByTimestamp\<close> does not do this: its loop creates, sets up
  and appends the elements and never calls \<^verbatim>\<open>updatePosition\<close>. On two notes created at
  2000 ms and 1000 ms, at (50, 90) and (300, 40), its ascending sort renders the board in
  the order 1, 2 and leaves both notes where they were. The first copy, on the same
  input, moves note 1 to (20, 20) and note 2 to (20, 180) (lemma \<open>forEach_sorted_stacks\<close>
  is the general statement for its loop).
\<close>

theorem sort2_leaves_positions:
  "manager (sortNotesByTimestamp2 (\<lambda>t. []) (\<lambda>t. []) Asc two_notes_ui) = [note_2000, note_1000]
   \<and> map el_note (board (sortNotesByTimestamp2 (\<lambda>t. []) (\<lambda>t. []) Asc two_notes_ui)) = [1, 2]
   \<and> manager (sortNotesByTimestamp (\<lambda>t. []) (\<lambda>t. []) Asc two_notes_ui)
       = [note_2000\<lparr>note_x := 20, note_y := 180\<rparr>, note_1000\<lparr>note_x := 20, note_y := 20\<rparr>]
   \<and> map el_note (board (sortNotesByTimestamp (\<lambda>t. []) (\<lambda>t. []) Asc two_notes_ui)) = [1, 2]"
proof -
  have m2: "manager (sortNotesByTimestamp2 (\<lambda>t. []) (\<lambda>t. []) Asc two_notes_ui) = [note_2000, note_1000]"
    by (simp add: sortNotesByTimestamp2_def manager_forEach_sorted2)
  have b2: "map el_note (board (sortNotesByTimestamp2 (\<lambda>t. []) (\<lambda>t. []) Asc two_notes_ui)) = [1, 2]"
    by (simp add: board_sort2 sorted_notes2_def getAllNotes_def upt_rec sortCompare_def compare2_def
        js_minus_def getTime_or_0_def)
  have m1: "manager (sortNotesByTimestamp (\<lambda>t. []) (\<lambda>t. []) Asc two_notes_ui)
       = [note_2000\<lparr>note_x := 20, note_y := 180\<rparr>, note_1000\<lparr>note_x := 20, note_y := 20\<rparr>]"
    unfolding sortNotesByTimestamp_def manager_forEach_sorted
    by (simp add: sorted_notes_def getAllNotes_def upt_rec sortCompare_def compare_def js_minus_def
        updatePosition_def startX_def spacingY_def)
  have b1: "map el_note (board (sortNotesByTimestamp (\<lambda>t. []) (\<lambda>t. []) Asc two_notes_ui)) = [1, 2]"
    by (simp add: board_sort sorted_notes_def getAllNotes_def upt_rec sortCompare_def compare_def
        js_minus_def)
  show ?thesis using m2 b2 m1 b1 by blast
qed

text \<open>
  Claim C6: for notes whose creation times are all valid and pairwise distinct, the
  board order after an ascending sort is the reverse of the board order after a
  descending sort of the same notes. It holds for both copies.
\<close>

theorem sort_asc_is_rev_desc:
  assumes valid: "\<forall>n\<in>set (manager s). getTime (createdAt n) \<noteq> None"
    and dist: "distinct (map createdAt (manager s))"
  shows "map el_note (board (sortNotesByTimestamp ld lt Asc s)) =
           rev (map el_note (board (sortNotesByTimestamp ld lt Desc s)))
       \<and> map el_note (board (sortNotesByTimestamp2 ld lt Asc s)) =
           rev (map el_note (board (sortNotesByTimestamp2 ld lt Desc s)))"
  by (simp add: board_sort board_sort2 sorted_notes_valid(3)[OF valid]
        sorted_notes_asc_rev_desc[OF valid dist] rev_map)

theorem sort_asc_is_rev_desc_witness:
  "getTime (Instant 2000) \<noteq> None \<and> getTime (Instant 1000) \<noteq> None
   \<and> distinct (map createdAt (manager two_notes_ui))
   \<and> map el_note (board (sortNotesByTimestamp (\<lambda>t. []) (\<lambda>t. []) Asc two_notes_ui)) = [1, 2]
   \<and> rev (map el_note (board (sortNotesByTimestamp (\<lambda>t. []) (\<lambda>t. []) Desc two_notes_ui))) = [1, 2]
   \<and> map el_note (board (sortNotesByTimestamp2 (\<lambda>t. []) (\<lambda>t. []) Asc two_notes_ui)) = [1, 2]"
proof -
  have asc: "map el_note (board (sortNotesByTimestamp (\<lambda>t. []) (\<lambda>t. []) Asc two_notes_ui)) = [1, 2]"
    by (simp add: board_sort sorted_notes_def getAllNotes_def upt_rec sortCompare_def compare_def
        js_minus_def)
  have two: "map el_note (board (sortNotesByTimestamp2 (\<lambda>t. []) (\<lambda>t. []) Asc two_notes_ui)) = [1, 2]"
    by (simp add: board_sort2 sorted_notes2_def getAllNotes_def upt_rec sortCompare_def compare2_def
        js_minus_def getTime_or_0_def)
  show ?thesis
    using sort_asc_is_rev_desc[of "two_notes_ui" "\<lambda>t. []" "\<lambda>t. []"] asc two by simp
qed

text \<open>
  Claim C9: the sort preserves the membership of the collection. After a sort by the
  first copy, in either order, the manager holds notes with the same ids, in the same
  places, with the same content, creation time and image: only positions change. The
  second copy leaves the manager as it is.
\<close>

theorem sort_preserves_membership:
  "map note_id (manager (sortNotesByTimestamp ld lt ord s)) = map note_id (manager s)
   \<and> note_id ` set (manager (sortNotesByTimestamp ld lt ord s)) = note_id ` set (manager s)
   \<and> map content (manager (sortNotesByTimestamp ld lt ord s)) = map content (manager s)
   \<and> map createdAt (manager (sortNotesByTimestamp ld lt ord s)) = map createdAt (manager s)
   \<and> map imageData (manager (sortNotesByTimestamp ld lt ord s)) = map imageData (manager s)
   \<and> manager (sortNotesByTimestamp2 ld lt ord s) = manager s"
proof -
  have m: "manager (sortNotesByTimestamp ld lt ord s) = place (sorted_notes ord (manager s)) 20 (manager s)"
    by (simp add: sortNotesByTimestamp_def manager_forEach_sorted)
  have "map note_id (manager (sortNotesByTimestamp ld lt ord s)) = map note_id (manager s)"
    by (simp add: m place_fields)
  moreover from this
  have "note_id ` set (manager (sortNotesByTimestamp ld lt ord s)) = note_id ` set (manager s)"
    by (metis set_map)
  moreover have "manager (sortNotesByTimestamp2 ld lt ord s) = manager s"
    by (simp add: sortNotesByTimestamp2_def manager_forEach_sorted2)
  ultimately show ?thesis by (simp add: m place_fields)
qed


section \<open>Claims about rendering the timestamp\<close>

text \<open>The first copy reports a creation time that is no valid date and renders nothing.\<close>

lemma renderTimestamp_invalid:
  "getTime t = None \<Longrightarrow> renderTimestamp ld lt el t con = (el, con @ [Warn_invalid_timestamp t])"
  by (simp add: renderTimestamp_def)

text \<open>
  Claim C5: a timestamp that is no valid date is logged and no timestamp text is
  produced.

  The second copy of \<^verbatim>\<open>renderTimestamp\<close> does not do this: it has no check for an invalid
  date. For a note whose \<^verbatim>\<open>timestamp\<close> is a string that does not parse it creates the
  timestamp element with the text \<^verbatim>\<open>Invalid Date Invalid Date\<close> and logs nothing; the
  second copy of \<^verbatim>\<open>setupNoteEventListeners\<close> calls it for such a note. The first copy has
  the check (lemma \<open>renderTimestamp_invalid\<close>).
\<close>

theorem renderTimestamp2_shows_invalid_date:
  "renderTimestamp2 (\<lambda>t. ''date'') (\<lambda>t. ''time'') fresh_element Malformed []
     = (fresh_element\<lparr>el_timestamp := Some ''Invalid Date Invalid Date''\<rparr>, [])
   \<and> setupNoteEventListeners2 (\<lambda>t. ''date'') (\<lambda>t. ''time'') fresh_element
       note_malformed []
     = (fresh_element\<lparr>el_timestamp := Some ''Invalid Date Invalid Date''\<rparr>, [])"
  by (simp add: renderTimestamp2_def setupNoteEventListeners2_def show_image_def formatted_def
      toLocaleDateString_def toLocaleTimeString_def)


section \<open>Claims about dragging\<close>

text \<open>
  Claim C2, as amended: for every mouse-move event during an active drag of a note whose
  element is no wider and no higher than the board, the position passed to
  \<^verbatim>\<open>updatePosition\<close> satisfies \<open>0 \<le> x \<le> boardWidth - noteWidth\<close> and
  \<open>0 \<le> y \<le> boardHeight - noteHeight\<close>.
\<close>

theorem drag_position_within_board:
  assumes "isDragging d" "offsetWidth \<le> rect_width boardRect" "offsetHeight \<le> rect_height boardRect"
  shows "0 \<le> note_x (mousemove event boardRect offsetWidth offsetHeight d n)
       \<and> note_x (mousemove event boardRect offsetWidth offsetHeight d n) \<le> rect_width boardRect - offsetWidth
       \<and> 0 \<le> note_y (mousemove event boardRect offsetWidth offsetHeight d n)
       \<and> note_y (mousemove event boardRect offsetWidth offsetHeight d n) \<le> rect_height boardRect - offsetHeight"
  using assms by (simp add: mousemove_def updatePosition_def newX_def newY_def)

theorem drag_position_within_board_witness:
  "isDragging dragging
   \<and> (200::real) \<le> rect_width large_board
   \<and> (150::real) \<le> rect_height large_board
   \<and> note_x (mousemove event_far_right large_board 200 150 dragging note_1000) \<le> 800
   \<and> 0 \<le> note_y (mousemove event_far_right large_board 200 150 dragging note_1000)"
  using drag_position_within_board[of "dragging" 200 "large_board" 150
      "event_far_right" "note_1000"]
  by simp

text \<open>
  Claim C2 as stated fails for a note that is wider than the board: on a board 100 wide
  a note 200 wide is put at \<open>x = 0\<close>, which is above \<open>boardWidth - noteWidth = -100\<close>.
\<close>

theorem drag_position_wide_note_counterexample:
  "\<not> (note_x (mousemove event_50_50 small_board 200 50 dragging note_1000)
       \<le> rect_width small_board - 200)"
  by (simp add: mousemove_def updatePosition_def newX_def newY_def)

text \<open>
  The drag is active exactly when some mouse-down that starts a drag has no mouse-up
  after it (or the drag was active at the start and no mouse-up came).
\<close>

lemma isDragging_dispatch_all:
  "isDragging (fst (dispatch_all evs (d, n))) \<longleftrightarrow>
     (\<exists>pre e post. evs = pre @ e # post \<and> starts_drag e \<and> MouseUp \<notin> set post)
     \<or> (isDragging d \<and> MouseUp \<notin> set evs)"
proof (induction evs arbitrary: d n)
  case Nil
  then show ?case by simp
next
  case (Cons a evs)
  have split: "(\<exists>pre e post. a # evs = pre @ e # post \<and> starts_drag e \<and> MouseUp \<notin> set post)
        \<longleftrightarrow> (starts_drag a \<and> MouseUp \<notin> set evs)
          \<or> (\<exists>pre e post. evs = pre @ e # post \<and> starts_drag e \<and> MouseUp \<notin> set post)"
    by (auto simp: Cons_eq_append_conv)
  show ?case
  proof (cases a)
    case (MouseDown event noteRect)
    then show ?thesis
      using Cons.IH[of "mousedown event noteRect d" n] split
      by (auto simp: mousedown_def)
  next
    case (MouseMove event boardRect w h)
    then show ?thesis
      using Cons.IH[of d "mousemove event boardRect w h d n"] split by auto
  next
    case MouseUp
    then show ?thesis
      using Cons.IH[of "mouseup d" n] split by (auto simp: mouseup_def)
  qed
qed

text \<open>
  Claim C10: a mouse-move event delivered while no drag is active on a note leaves the
  note's position (the whole note) unchanged: the listener returns before it calls
  \<^verbatim>\<open>updatePosition\<close>. No drag is active when \<^verbatim>\<open>isDragging\<close> is false, and that is so after
  every history of events, from the set-up of the listeners on, in which no mouse-down
  on the draggable area of the note is left without a later mouse-up.
\<close>

theorem mousemove_idle_keeps_position:
  "(\<not> isDragging d \<longrightarrow> mousemove event boardRect w h d n = n)
   \<and> (\<not> (\<exists>pre e post. evs = pre @ e # post \<and> starts_drag e \<and> MouseUp \<notin> set post) \<longrightarrow>
        snd (dispatch (MouseMove event boardRect w h) (dispatch_all evs (drag_idle, n0)))
          = snd (dispatch_all evs (drag_idle, n0)))"
proof -
  have 1: "\<not> isDragging d \<longrightarrow> mousemove event boardRect w h d n = n"
    by (simp add: mousemove_def)
  have 2: "snd (dispatch (MouseMove event boardRect w h) (dispatch_all evs (drag_idle, n0)))
          = snd (dispatch_all evs (drag_idle, n0))"
    if "\<not> (\<exists>pre e post. evs = pre @ e # post \<and> starts_drag e \<and> MouseUp \<notin> set post)"
  proof -
    have "\<not> isDragging (fst (dispatch_all evs (drag_idle, n0)))"
      using that isDragging_dispatch_all[of evs drag_idle n0] by (simp add: drag_idle_def)
    then show ?thesis
      by (cases "dispatch_all evs (drag_idle, n0)") (simp add: mousemove_def)
  qed
  show ?thesis using 1 2 by blast
qed

theorem mousemove_idle_keeps_position_witness:
  "\<not> isDragging drag_idle
   \<and> mousemove event_inside large_board 200 150 drag_idle note_1000 = note_1000
   \<and> \<not> (\<exists>pre e post. [MouseDown event_inside note_rect, MouseUp] = pre @ e # post \<and> starts_drag e \<and> MouseUp \<notin> set post)
   \<and> snd (dispatch (MouseMove event_inside large_board 200 150) (dispatch_all [MouseDown event_inside note_rect, MouseUp] (drag_idle, note_1000))) = note_1000"
proof -
  have h: "\<not> (\<exists>pre e post. [MouseDown event_inside note_rect, MouseUp] = pre @ e # post \<and> starts_drag e \<and> MouseUp \<notin> set post)"
    by (auto simp: append_eq_Cons_conv Cons_eq_append_conv)
  have v: "snd (dispatch_all [MouseDown event_inside note_rect, MouseUp] (drag_idle, note_1000)) = note_1000"
    by simp
  show ?thesis
    using mousemove_idle_keeps_position[of drag_idle "event_inside" "large_board" 200 150 "note_1000"
        "[MouseDown event_inside note_rect, MouseUp]" "note_1000"] h v
    by (simp add: drag_idle_def)
qed


section \<open>Claims about deleting\<close>

lemma concat_replicate_commute: "concat (replicate k xs) @ xs = xs @ concat (replicate k xs)"
  by (induction k) simp_all

lemma calls_listener:
  "r_calls (animationend_listener n v) = r_calls v @ [ElementRemove, ManagerRemoveNote (note_id n)]"
  by (simp add: animationend_listener_def Let_def)

lemma listeners_run:
  "r_calls ((animationend_listener n ^^ k) v)
     = r_calls v @ concat (replicate k [ElementRemove, ManagerRemoveNote (note_id n)])"
proof (induction k)
  case 0
  then show ?case by simp
next
  case (Suc k)
  have "concat (replicate k [ElementRemove, ManagerRemoveNote (note_id n)])
          @ [ElementRemove, ManagerRemoveNote (note_id n)]
        = concat (replicate (Suc k) [ElementRemove, ManagerRemoveNote (note_id n)])"
    using concat_replicate_commute[of k "[ElementRemove, ManagerRemoveNote (note_id n)]"] by simp
  then show ?case using Suc by (simp add: calls_listener del: replicate_Suc replicate.simps)
qed

lemma manager_no_animationend:
  "AnimationEnd \<notin> set evs \<Longrightarrow> r_manager (deliver_all n evs v) = r_manager v"
proof (induction evs arbitrary: v)
  case Nil
  then show ?case by simp
next
  case (Cons e evs)
  then show ?case by (cases e) (simp_all add: deleteNote_def)
qed

lemma calls_no_animationend:
  "AnimationEnd \<notin> set evs \<Longrightarrow>
   r_calls (deliver_all n evs v)
     = r_calls v @ concat (replicate (length evs) [ClassListAdd, AddEventListener])"
proof (induction evs arbitrary: v)
  case Nil
  then show ?case by simp
next
  case (Cons e evs)
  then show ?case by (cases e) (simp_all add: deleteNote_def)
qed

lemma removed_after_animationend:
  "note_id n \<notin> note_id ` set (r_manager (animationend n (deleteNote n v)))"
proof -
  have "r_animationend (deleteNote n v) = Suc (r_animationend v)"
    by (simp add: deleteNote_def)
  then have "animationend n (deleteNote n v)
      = animationend_listener n ((animationend_listener n ^^ r_animationend v) (deleteNote n v))"
    by (simp add: animationend_def)
  moreover have "note_id n \<notin> note_id ` set (r_manager (animationend_listener n w))" for w
    by (auto simp: animationend_listener_def Let_def removeNote_def)
  ultimately show ?thesis by simp
qed

text \<open>
  Claim C3: a click on the delete control does not remove the note from the collection:
  after the click the manager (and the element's place in the document) is as before,
  and it stays so through every sequence of events without an \<^verbatim>\<open>animationend\<close>, during
  which \<^verbatim>\<open>removeNote\<close> is not called. The
  \<^verbatim>\<open>animationend\<close> event makes each registered listener remove the element from the
  document first and the note from the manager second; after a click and an
  \<^verbatim>\<open>animationend\<close> the note's id is no longer in the manager.
\<close>

theorem delete_removes_after_animationend:
  "r_manager (deleteNote n v) = r_manager v
   \<and> r_attached (deleteNote n v) = r_attached v
   \<and> (AnimationEnd \<notin> set evs \<longrightarrow>
        r_manager (deliver_all n evs v) = r_manager v
        \<and> r_calls (deliver_all n evs v)
            = r_calls v @ concat (replicate (length evs) [ClassListAdd, AddEventListener]))
   \<and> r_calls (animationend n v)
       = r_calls v @ concat (replicate (r_animationend v) [ElementRemove, ManagerRemoveNote (note_id n)])
   \<and> note_id n \<notin> note_id ` set (r_manager (animationend n (deleteNote n v)))"
  by (simp add: manager_no_animationend calls_no_animationend listeners_run animationend_def[of n v]
        removed_after_animationend)
     (simp add: deleteNote_def)

theorem delete_removes_after_animationend_witness:
  "AnimationEnd \<notin> set [DeleteClick]
   \<and> r_manager (deliver_all note_1000 [DeleteClick] attached_rendering) = [note_1000]
   \<and> r_calls (animationend note_1000 (deleteNote note_1000 attached_rendering))
       = [ClassListAdd, AddEventListener, ElementRemove, ManagerRemoveNote 1]"
  using delete_removes_after_animationend[of "note_1000" "attached_rendering" "[DeleteClick]"]
    delete_removes_after_animationend[of "note_1000" "deleteNote note_1000 attached_rendering" "[]"]
  by (simp add: deleteNote_def)


section \<open>Claims about attaching an image\<close>

text \<open>
  Claim C7: a selected file whose MIME type does not start with \<^verbatim>\<open>image/\<close> leaves the
  note (its \<^verbatim>\<open>imageData\<close> included), the preview and the console as they are; whenever a
  selection changes \<^verbatim>\<open>imageData\<close>, the selected file had a type that starts with
  \<^verbatim>\<open>image/\<close>.
\<close>

theorem non_image_file_ignored:
  "(\<not> prefix ''image/'' (file_type f) \<longrightarrow> image_selected (Some f) (el, n, con) = (el, n, con))
   \<and> (imageData (fst (snd (image_selected files0 (el, n, con)))) \<noteq> imageData n \<longrightarrow>
        (\<exists>g. files0 = Some g \<and> prefix ''image/'' (file_type g)))"
  by (auto simp: image_selected_def imageInput_change_def reader_onload_def
      split: option.splits if_splits)

theorem non_image_file_ignored_witness:
  "\<not> prefix ''image/'' (file_type text_file)
   \<and> image_selected (Some text_file) (createElement note_1000, note_1000, []) = (createElement note_1000, note_1000, [])
   \<and> imageData (fst (snd (image_selected (Some png_file) (createElement note_1000, note_1000, [])))) \<noteq> imageData note_1000
   \<and> prefix ''image/'' ''image/png''"
proof -
  have "imageData (fst (snd (image_selected (Some png_file) (createElement note_1000, note_1000, [])))) \<noteq> imageData note_1000"
    by (simp add: image_selected_def imageInput_change_def reader_onload_def)
  then show ?thesis
    using non_image_file_ignored[of "text_file" "createElement note_1000" "note_1000" "[]" "Some png_file"]
    by simp
qed


section \<open>Claims about the bootstrap\<close>











end
